theory Spec2Isabelle
  imports
    Complex_Main
    "HOL-Library.Sublist"
    "HOL-Library.Char_ord"
    "HOL-Library.List_Lexorder"
    "HOL-Library.Product_Lexorder"
    "HOL-Library.Log_Nat"
begin

section \<open>The daily ledger of Ez\_yawmya\<close>

text \<open>
  The program keeps one spreadsheet row per calendar day. \<open>save_data\<close> inserts or
  edits a row and shifts the running totals of the later rows; \<open>load_data\<close> decides,
  for a selected date, which stored row supplies the opening balances, or that the
  first-day dialog has to be shown. Amounts are Python floats, and the numeric columns
  of the data frame are \<open>float64\<close>: every sum and difference is rounded.
\<close>

subsection \<open>Exceptions and the spreadsheet row\<close>

datatype error = IndexError | KeyError | ValueError | TypeError | FileNotFoundError

subsection \<open>Python floats\<close>

text \<open>
  A Python float is an IEEE 754 binary64 number: a finite value, an infinity, or NaN.
  \<open>Finite x\<close> is the double of value \<open>x\<close>; the two zeros are not told apart (they are
  equal for \<open>==\<close> and the program never divides). Every arithmetic result is rounded to
  the nearest double, ties to the even significand, by \<open>round64\<close>: the significand has
  53 bits, the least exponent of the last place is \<open>-1074\<close>, and a result that rounds to
  \<open>2 ^ 1024\<close> or more in magnitude is an infinity.
\<close>

datatype float64 = Finite real | PInf | NInf | NaN

definition pow2 :: "int \<Rightarrow> real" where
  "pow2 k = (if 0 \<le> k then 2 ^ nat k else 1 / 2 ^ nat (- k))"

text \<open>For \<open>0 < x\<close>, the integer \<open>k\<close> with \<open>2 ^ k \<le> x < 2 ^ (k + 1)\<close>.\<close>

definition ilog2 :: "real \<Rightarrow> int" where
  "ilog2 x = (if 1 \<le> x then bitlen \<lfloor>x\<rfloor> - 1 else - bitlen (\<lceil>1 / x\<rceil> - 1))"

definition round_half_even :: "real \<Rightarrow> int" where
  "round_half_even x =
     (let n = \<lfloor>x\<rfloor>; r = x - of_int n
      in if r < 1 / 2 then n else if 1 / 2 < r then n + 1 else if even n then n else n + 1)"

text \<open>For \<open>0 < x\<close>: \<open>x\<close> rounded to a multiple of its unit in the last place.\<close>

definition round_pos :: "real \<Rightarrow> real" where
  "round_pos x =
     (let e = max (ilog2 x - 52) (- 1074)
      in of_int (round_half_even (x / pow2 e)) * pow2 e)"

definition round64 :: "real \<Rightarrow> float64" where
  "round64 x =
     (if x = 0 then Finite 0
      else if 0 < x then (let v = round_pos x in if 2 ^ 1024 \<le> v then PInf else Finite v)
      else (let v = round_pos (- x) in if 2 ^ 1024 \<le> v then NInf else Finite (- v)))"

text \<open>
  Addition and subtraction of floats. With a zero operand the result is the other
  operand itself (or its negation), which is the rounded exact result for every double.
\<close>

instantiation float64 :: "{zero, plus, minus}"
begin

definition zero_float64 :: float64 where
  "zero_float64 = Finite 0"

definition plus_float64 :: "float64 \<Rightarrow> float64 \<Rightarrow> float64" where
  "plus_float64 a b =
     (case (a, b) of
        (NaN, _) \<Rightarrow> NaN
      | (_, NaN) \<Rightarrow> NaN
      | (PInf, NInf) \<Rightarrow> NaN
      | (NInf, PInf) \<Rightarrow> NaN
      | (PInf, _) \<Rightarrow> PInf
      | (_, PInf) \<Rightarrow> PInf
      | (NInf, _) \<Rightarrow> NInf
      | (_, NInf) \<Rightarrow> NInf
      | (Finite x, Finite y) \<Rightarrow>
          if y = 0 then Finite x else if x = 0 then Finite y else round64 (x + y))"

definition minus_float64 :: "float64 \<Rightarrow> float64 \<Rightarrow> float64" where
  "minus_float64 a b =
     (case (a, b) of
        (NaN, _) \<Rightarrow> NaN
      | (_, NaN) \<Rightarrow> NaN
      | (PInf, PInf) \<Rightarrow> NaN
      | (NInf, NInf) \<Rightarrow> NaN
      | (PInf, _) \<Rightarrow> PInf
      | (_, PInf) \<Rightarrow> NInf
      | (NInf, _) \<Rightarrow> NInf
      | (_, NInf) \<Rightarrow> PInf
      | (Finite x, Finite y) \<Rightarrow>
          if y = 0 then Finite x else if x = 0 then Finite (- y) else round64 (x - y))"

instance ..

end

text \<open>\<open>a == b\<close> on floats: NaN is equal to nothing, itself included.\<close>

definition float_eq :: "float64 \<Rightarrow> float64 \<Rightarrow> bool" where
  "float_eq a b = (a \<noteq> NaN \<and> b \<noteq> NaN \<and> a = b)"

definition is_finite :: "float64 \<Rightarrow> bool" where
  "is_finite a = (case a of Finite _ \<Rightarrow> True | _ \<Rightarrow> False)"

text \<open>
  The \<open>Expenses\<close> column holds either the literal no-expenses marker string or the
  printed list of \<open>(name, amount)\<close> pairs, which \<open>ast.literal_eval\<close> reads back.
\<close>

datatype expenses_cell = No_Expenses | Expense_List "(string \<times> float64) list"

text \<open>The nine columns of the data frame, in the order of the source.\<close>

record row =
  Date :: string
  Cash :: float64
  Credit :: float64
  Credit_Withdraw :: float64
  Total_Sellings :: float64
  Total_Credit :: float64
  Total_Cash :: float64
  Total_Expenses :: float64
  Expenses :: expenses_cell

subsection \<open>Dates: QDate, its text form, and pandas timestamps\<close>

text \<open>A \<open>QDate\<close> is a triple (year, month, day); triples are ordered lexicographically.\<close>

type_synonym qdate = "nat \<times> nat \<times> nat"

definition is_leap :: "nat \<Rightarrow> bool" where
  "is_leap y = (y mod 4 = 0 \<and> (y mod 100 \<noteq> 0 \<or> y mod 400 = 0))"

definition days_in_month :: "nat \<Rightarrow> nat \<Rightarrow> nat" where
  "days_in_month y m =
     (if m = 2 then (if is_leap y then 29 else 28)
      else if m = 4 \<or> m = 6 \<or> m = 9 \<or> m = 11 then 30 else 31)"

definition valid_date :: "qdate \<Rightarrow> bool" where
  "valid_date q = (case q of (y, m, d) \<Rightarrow>
     1 \<le> y \<and> y \<le> 9999 \<and> 1 \<le> m \<and> m \<le> 12 \<and> 1 \<le> d \<and> d \<le> days_in_month y m)"

definition digit_char :: "nat \<Rightarrow> char" where
  "digit_char n = char_of (48 + n)"

definition pad2 :: "nat \<Rightarrow> string" where
  "pad2 n = [digit_char (n div 10 mod 10), digit_char (n mod 10)]"

definition pad4 :: "nat \<Rightarrow> string" where
  "pad4 n = [digit_char (n div 1000 mod 10), digit_char (n div 100 mod 10),
             digit_char (n div 10 mod 10), digit_char (n mod 10)]"

text \<open>\<open>QDate.toString('yyyy-MM-dd')\<close>; an invalid date prints as the empty string.\<close>

definition toString :: "qdate \<Rightarrow> string" where
  "toString q = (case q of (y, m, d) \<Rightarrow>
     if valid_date q then pad4 y @ ''-'' @ pad2 m @ ''-'' @ pad2 d else [])"

text \<open>\<open>QDate.addDays(-1)\<close>: the previous calendar day.\<close>

definition addDays_minus1 :: "qdate \<Rightarrow> qdate" where
  "addDays_minus1 q = (case q of (y, m, d) \<Rightarrow>
     if 1 < d then (y, m, d - 1)
     else if 1 < m then (y, m - 1, days_in_month y (m - 1))
     else (y - 1, 12, 31))"

definition is_digit :: "char \<Rightarrow> bool" where
  "is_digit c = (CHR ''0'' \<le> c \<and> c \<le> CHR ''9'')"

definition digit_val :: "char \<Rightarrow> nat" where
  "digit_val c = of_char c - 48"

definition number :: "string \<Rightarrow> nat" where
  "number s = foldl (\<lambda>n c. 10 * n + digit_val c) 0 s"

text \<open>
  \<open>pd.Timestamp(s)\<close> on the date strings the program writes, which all have the form
  \<open>yyyy-MM-dd\<close>: the calendar date, or \<open>ValueError\<close> when the text is not a date of
  that form. (pandas accepts further spellings of a date; the program never produces
  them.)
\<close>

definition Timestamp :: "string \<Rightarrow> error + qdate" where
  "Timestamp s =
     (if length s = 10 \<and> s ! 4 = CHR ''-'' \<and> s ! 7 = CHR ''-''
         \<and> list_all is_digit (take 4 s)
         \<and> list_all is_digit (take 2 (drop 5 s))
         \<and> list_all is_digit (drop 8 s)
      then (let q = (number (take 4 s), number (take 2 (drop 5 s)), number (drop 8 s))
            in if valid_date q then Inr q else Inl ValueError)
      else Inl ValueError)"

subsection \<open>Data frame operations\<close>

text \<open>
  A data frame read from the file is the list of its rows, indexed from 0.
  \<open>Series.str.contains(pat)\<close> with a pattern of digits and hyphens is substring search.
\<close>

definition str_contains :: "string \<Rightarrow> string \<Rightarrow> bool" where
  "str_contains s pat = sublist pat s"

text \<open>\<open>df['Date'].astype(str).str.contains(d).any()\<close>\<close>

definition date_exists :: "row list \<Rightarrow> string \<Rightarrow> bool" where
  "date_exists df d = list_ex (\<lambda>r. str_contains (Date r) d) df"

text \<open>
  \<open>df.index[df['Date'].astype(str) == d].tolist()\<close>: the positions of the rows whose
  date text equals \<open>d\<close>, in increasing order; the source takes element \<open>[0]\<close>.
\<close>

definition index_of_date :: "row list \<Rightarrow> string \<Rightarrow> nat list" where
  "index_of_date df d = filter (\<lambda>i. Date (df ! i) = d) [0..<length df]"

definition first_elem :: "'a list \<Rightarrow> error + 'a" where
  "first_elem xs = (case xs of [] \<Rightarrow> Inl IndexError | x # _ \<Rightarrow> Inr x)"

text \<open>
  \<open>df.iloc[idx:, 'Total Credit'] += credit_difference\<close> together with the same update
  of \<open>Total Cash\<close>; a slice that starts past the end is empty.
\<close>

definition add_totals :: "float64 \<Rightarrow> float64 \<Rightarrow> row \<Rightarrow> row" where
  "add_totals credit_difference cash_difference r =
     r\<lparr>Total_Credit := Total_Credit r + credit_difference,
       Total_Cash := Total_Cash r + cash_difference\<rparr>"

definition iloc_add :: "nat \<Rightarrow> float64 \<Rightarrow> float64 \<Rightarrow> row list \<Rightarrow> row list" where
  "iloc_add idx credit_difference cash_difference df =
     take idx df @ map (add_totals credit_difference cash_difference) (drop idx df)"

text \<open>\<open>df.sort_values('Date')\<close>: ascending by the date text.\<close>

definition sort_values :: "row list \<Rightarrow> row list" where
  "sort_values df = sort_key Date df"

subsection \<open>\<open>save_data\<close>\<close>

text \<open>
  The function reads the data frame \<open>df\<close> from the file, and what it returns here is
  the data frame it writes back. \<open>df.at[1, ...]\<close> raises \<open>KeyError\<close> when there is no
  row 1.
\<close>

definition save_data :: "row list \<Rightarrow> row \<Rightarrow> error + row list" where
  "save_data df data =
     (let exists = date_exists df (Date data) in
      if df = [] then Inr (df @ [data])
      else if \<not> exists then
        (let df1 = sort_values (df @ [data]) in
         case first_elem (index_of_date df1 (Date data)) of
           Inl e \<Rightarrow> Inl e
         | Inr idx \<Rightarrow>
             if idx = 0 \<and> length df1 < 2 then Inl KeyError
             else
               (let df2 =
                      (if idx = 0 then
                         (let current_credit = Total_Credit (df1 ! 1);
                              current_cash = Total_Cash (df1 ! 1);
                              credit_difference = Total_Credit data - current_credit;
                              cash_difference = Total_Cash data - current_cash
                          in iloc_add 1 credit_difference cash_difference df1)
                       else df1);
                    idx' = idx + 1;
                    credit_difference = Credit data - Credit_Withdraw data;
                    cash_difference = Cash data + Credit_Withdraw data - Total_Expenses data;
                    df3 = iloc_add idx' credit_difference cash_difference df2
                in Inr (sort_values df3)))
      else
        (case first_elem (index_of_date df (Date data)) of
           Inl e \<Rightarrow> Inl e
         | Inr idx \<Rightarrow>
             (let current_credit = Total_Credit (df ! idx);
                  current_cash = Total_Cash (df ! idx);
                  credit_difference = Total_Credit data - current_credit;
                  cash_difference = Total_Cash data - current_cash;
                  df1 = iloc_add idx credit_difference cash_difference df;
                  df2 = df1[idx := data]
              in Inr (sort_values df2))))"

subsection \<open>The form: entry fields, cached balances, dialogs\<close>

text \<open>
  The text of a \<open>QLineEdit\<close> or result label, as \<open>float()\<close> sees it: empty, the
  spelling of a number, or anything else.
\<close>

datatype line_text = Text_Empty | Text_Num float64 | Text_Bad

definition py_float :: "line_text \<Rightarrow> error + float64" where
  "py_float t = (case t of Text_Num v \<Rightarrow> Inr v | _ \<Rightarrow> Inl ValueError)"

text \<open>\<open>float(entry.text()) if entry.text() else 0\<close>\<close>

definition float_or_zero :: "line_text \<Rightarrow> error + float64" where
  "float_or_zero t = (case t of Text_Empty \<Rightarrow> Inr 0 | _ \<Rightarrow> py_float t)"

text \<open>The modal windows the program opens, in the order they were shown.\<close>

datatype ui_event =
    First_Day_Dialog
  | Warning_No_Initial_Data
  | Critical_Invalid_Income
  | Info_Saved
  | Critical_Enter_All_Data
  | Critical_Invalid_Amount
  | Critical_Select_Expense
  | Critical_Invalid_Expense

text \<open>What the user does with the first-day dialog: the two texts submitted, or cancel.\<close>

datatype dialog_input = Accepted line_text line_text | Rejected

text \<open>
  The attributes of \<open>RestaurantFinanceApp\<close> that the ledger logic reads or writes.
  \<open>excel_file\<close> is the content of the spreadsheet file, \<open>None\<close> while the file does
  not exist. The list widget of expense lines is not part of the state; the line the
  user selected is an argument of the operations that read it.
\<close>

record app =
  excel_file :: "row list option"
  date_picker :: qdate
  all_expanses :: "string set"
  expenses :: "(string \<times> float64) list"
  last_day_credit :: float64
  last_day_cash :: float64
  cash_entry :: line_text
  credit_entry :: line_text
  credit_withdraw_entry :: line_text
  expense_name_entry :: string
  expense_amount_entry :: line_text
  total_expenses_result :: line_text
  total_sellings_result :: line_text
  total_credit_result :: line_text
  total_cash_result :: line_text
  shown :: "ui_event list"

definition notify :: "ui_event \<Rightarrow> app \<Rightarrow> app" where
  "notify e a = a\<lparr>shown := shown a @ [e]\<rparr>"

text \<open>\<open>FirstDayDataDialog.get_data\<close>: a text that is no number makes both balances 0.\<close>

definition get_data :: "line_text \<Rightarrow> line_text \<Rightarrow> float64 \<times> float64" where
  "get_data credit_text cash_text =
     (case py_float credit_text of
        Inl _ \<Rightarrow> (0, 0)
      | Inr credit \<Rightarrow>
          (case py_float cash_text of
             Inl _ \<Rightarrow> (0, 0)
           | Inr cash \<Rightarrow> (credit, cash)))"

definition clear_data :: "app \<Rightarrow> app" where
  "clear_data a =
     a\<lparr>expenses := [],
       total_expenses_result := Text_Num 0,
       total_cash_result := Text_Num 0,
       total_credit_result := Text_Num 0,
       total_sellings_result := Text_Num 0,
       cash_entry := Text_Num 0,
       credit_entry := Text_Num 0,
       credit_withdraw_entry := Text_Num 0,
       last_day_cash := 0,
       last_day_credit := 0\<rparr>"

text \<open>
  \<open>sum(amount for _, amount in self.expenses)\<close>: the amounts added from the left,
  starting with 0, each sum rounded (CPython from 3.12 on compensates the rounding
  error of the running sum; the plain sum is modelled).
\<close>

definition sum_amounts :: "(string \<times> float64) list \<Rightarrow> float64" where
  "sum_amounts xs = foldl (\<lambda>total amount. total + amount) 0 (map snd xs)"

text \<open>
  \<open>calculate_totals\<close> returns the row to save, or \<open>None\<close> after the \<open>ValueError\<close> of
  an entry that is no number (the handler shows a message and falls off the end).
\<close>

definition calculate_totals :: "app \<Rightarrow> row option \<times> app" where
  "calculate_totals a =
     (case float_or_zero (cash_entry a) of
        Inl _ \<Rightarrow> (None, notify Critical_Invalid_Income a)
      | Inr cash \<Rightarrow>
     (case float_or_zero (credit_entry a) of
        Inl _ \<Rightarrow> (None, notify Critical_Invalid_Income a)
      | Inr credit \<Rightarrow>
     (case float_or_zero (credit_withdraw_entry a) of
        Inl _ \<Rightarrow> (None, notify Critical_Invalid_Income a)
      | Inr credit_withdraw \<Rightarrow>
         (let total_expenses = sum_amounts (expenses a);
              total_sellings = cash + credit;
              total_credit = last_day_credit a + credit - credit_withdraw;
              total_cash = last_day_cash a + cash + credit_withdraw - total_expenses;
              a' = a\<lparr>total_expenses_result := Text_Num total_expenses,
                      total_sellings_result := Text_Num total_sellings,
                      total_credit_result := Text_Num total_credit,
                      total_cash_result := Text_Num total_cash\<rparr>;
              data = \<lparr>Date = toString (date_picker a),
                      Cash = cash,
                      Credit = credit,
                      Credit_Withdraw = credit_withdraw,
                      Total_Sellings = total_sellings,
                      Total_Credit = total_credit,
                      Total_Cash = total_cash,
                      Total_Expenses = total_expenses,
                      Expenses = (if expenses a = [] then No_Expenses
                                  else Expense_List (expenses a))\<rparr>
          in (Some data, a')))))"

text \<open>
  \<open>save_data\<close> on the file of the application; an exception leaves the method and
  is a value \<open>Inl\<close>.
\<close>

definition save_file :: "app \<Rightarrow> row \<Rightarrow> error + app" where
  "save_file a data =
     (case excel_file a of
        None \<Rightarrow> Inl FileNotFoundError
      | Some df \<Rightarrow>
          (case save_data df data of
             Inl e \<Rightarrow> Inl e
           | Inr df' \<Rightarrow> Inr (a\<lparr>excel_file := Some df'\<rparr>)))"

definition show_first_day_dialog :: "dialog_input \<Rightarrow> app \<Rightarrow> error + app" where
  "show_first_day_dialog dlg a =
     (let a0 = notify First_Day_Dialog a;
          a1 = (case dlg of
                  Accepted credit_text cash_text \<Rightarrow>
                    (case get_data credit_text cash_text of
                       (credit, cash) \<Rightarrow>
                         a0\<lparr>last_day_credit := credit, last_day_cash := cash\<rparr>)
                | Rejected \<Rightarrow>
                    notify Warning_No_Initial_Data
                      (a0\<lparr>last_day_credit := 0, last_day_cash := 0\<rparr>));
          first_date = toString (addDays_minus1 (date_picker a1));
          initial_row = \<lparr>Date = first_date,
                         Cash = 0,
                         Credit = 0,
                         Credit_Withdraw = 0,
                         Total_Sellings = 0,
                         Total_Credit = last_day_credit a1,
                         Total_Cash = last_day_cash a1,
                         Total_Expenses = 0,
                         Expenses = No_Expenses\<rparr>
      in case save_file a1 initial_row of
           Inl e \<Rightarrow> Inl e
         | Inr a2 \<Rightarrow> Inr (snd (calculate_totals a2)))"

text \<open>
  \<open>save_daily_data\<close>: with no row from \<open>calculate_totals\<close>, \<open>save_data(None)\<close> reads
  the file and then fails on \<open>data['Date']\<close> with a \<open>TypeError\<close>, which the handler for
  \<open>ValueError\<close> does not catch.
\<close>

definition save_daily_data :: "app \<Rightarrow> error + app" where
  "save_daily_data a =
     (case calculate_totals a of
        (data, a1) \<Rightarrow>
          (case excel_file a1 of
             None \<Rightarrow> Inl FileNotFoundError
           | Some df \<Rightarrow>
               (case data of
                  None \<Rightarrow> Inl TypeError
                | Some d \<Rightarrow>
                    (case save_file a1 d of
                       Inl e \<Rightarrow>
                         (if e = ValueError then Inr (notify Critical_Enter_All_Data a1)
                          else Inl e)
                     | Inr a2 \<Rightarrow> Inr (notify Info_Saved a2)))))"

subsection \<open>\<open>load_data\<close>\<close>

text \<open>
  The backward loop of \<open>load_data\<close>, over the rows from the last to the first: the
  first row met whose timestamp is earlier than the selected one; the row at index 0,
  with which \<open>last_day_data\<close> starts, when the loop never breaks.
\<close>

fun scan_back :: "row list \<Rightarrow> qdate \<Rightarrow> row \<Rightarrow> error + row" where
  "scan_back [] selected_timestamp last_day_data = Inr last_day_data"
| "scan_back (r # rs) selected_timestamp last_day_data =
     (case Timestamp (Date r) of
        Inl e \<Rightarrow> Inl e
      | Inr t \<Rightarrow>
          if t < selected_timestamp then Inr r
          else scan_back rs selected_timestamp last_day_data)"

text \<open>
  The three ways in which \<open>load_data\<close> ends: with the stored row of the selected date,
  after the first-day dialog, or with the nearest earlier row.
\<close>

datatype resolved = Exact row | NeedsBootstrap | Interpolated row

definition expenses_of_cell :: "expenses_cell \<Rightarrow> (string \<times> float64) list" where
  "expenses_of_cell c = (case c of No_Expenses \<Rightarrow> [] | Expense_List xs \<Rightarrow> xs)"

text \<open>The part of \<open>load_data\<close> after the data frame \<open>df\<close> has been read.\<close>

definition load_df ::
  "row list \<Rightarrow> string \<Rightarrow> dialog_input \<Rightarrow> app \<Rightarrow> error + resolved \<times> app" where
  "load_df df selected_date dlg a =
     (if df = [] then
        (case show_first_day_dialog dlg a of
           Inl e \<Rightarrow> Inl e
         | Inr a' \<Rightarrow> Inr (NeedsBootstrap, a'))
      else if date_exists df selected_date then
        (case first_elem (index_of_date df selected_date) of
           Inl e \<Rightarrow> Inl e
         | Inr idx \<Rightarrow>
             if idx = 0 then
               (case show_first_day_dialog dlg a of
                  Inl e \<Rightarrow> Inl e
                | Inr a' \<Rightarrow> Inr (NeedsBootstrap, a'))
             else
               (let today_data = df ! idx;
                    last_day_data = df ! (idx - 1)
                in Inr (Exact today_data,
                     a\<lparr>last_day_credit := Total_Credit last_day_data,
                       last_day_cash := Total_Cash last_day_data,
                       cash_entry := Text_Num (Cash today_data),
                       credit_entry := Text_Num (Credit today_data),
                       credit_withdraw_entry := Text_Num (Credit_Withdraw today_data),
                       total_sellings_result := Text_Num (Total_Sellings today_data),
                       total_credit_result := Text_Num (Total_Credit today_data),
                       total_cash_result := Text_Num (Total_Cash today_data),
                       expenses := expenses_of_cell (Expenses today_data)\<rparr>)))
      else
        (case Timestamp selected_date of
           Inl e \<Rightarrow> Inl e
         | Inr selected_timestamp \<Rightarrow>
        (case Timestamp (Date (df ! 0)) of
           Inl e \<Rightarrow> Inl e
         | Inr first_timestamp \<Rightarrow>
             if selected_timestamp < first_timestamp then
               (case show_first_day_dialog dlg a of
                  Inl e \<Rightarrow> Inl e
                | Inr a' \<Rightarrow> Inr (NeedsBootstrap, a'))
             else
               (case scan_back (rev df) selected_timestamp (df ! 0) of
                  Inl e \<Rightarrow> Inl e
                | Inr last_day_data \<Rightarrow>
                    Inr (Interpolated last_day_data,
                      a\<lparr>last_day_credit := Total_Credit last_day_data,
                        last_day_cash := Total_Cash last_day_data,
                        cash_entry := Text_Empty,
                        credit_entry := Text_Empty,
                        credit_withdraw_entry := Text_Empty,
                        total_sellings_result := Text_Empty,
                        total_credit_result := Text_Num (Total_Credit last_day_data),
                        total_cash_result := Text_Num (Total_Cash last_day_data),
                        total_expenses_result := Text_Num 0\<rparr>)))))"

text \<open>
  \<open>load_data\<close>: when the file does not exist, an empty sheet is written, the first-day
  dialog is shown, and the file is read again before the method goes on.
\<close>

definition load_data :: "string \<Rightarrow> dialog_input \<Rightarrow> app \<Rightarrow> error + resolved \<times> app" where
  "load_data selected_date dlg a =
     (let a0 = clear_data a in
      case excel_file a0 of
        Some df \<Rightarrow> load_df df selected_date dlg a0
      | None \<Rightarrow>
          (case show_first_day_dialog dlg (a0\<lparr>excel_file := Some []\<rparr>) of
             Inl e \<Rightarrow> Inl e
           | Inr a1 \<Rightarrow>
               (case excel_file a1 of
                  None \<Rightarrow> Inl FileNotFoundError
                | Some df \<Rightarrow> load_df df selected_date dlg a1)))"

text \<open>\<open>on_date_changed\<close>, the date picker already holding the date the user chose.\<close>

definition on_date_changed :: "dialog_input \<Rightarrow> app \<Rightarrow> error + resolved \<times> app" where
  "on_date_changed dlg a = load_data (toString (date_picker a)) dlg a"

subsection \<open>The list of the day's expenses\<close>

text \<open>
  The selected line of the list widget, split at \<open>': '\<close>: the name, and the text that
  \<open>float()\<close> is applied to.
\<close>

type_synonym selected_expense = "string \<times> line_text"

definition add_expense :: "app \<Rightarrow> app" where
  "add_expense a =
     (let expense_name = expense_name_entry a in
      case py_float (expense_amount_entry a) of
        Inl _ \<Rightarrow> notify Critical_Invalid_Amount a
      | Inr expense_amount \<Rightarrow>
          snd (calculate_totals
            (a\<lparr>expenses := expenses a @ [(expense_name, expense_amount)],
               all_expanses := insert expense_name (all_expanses a),
               expense_name_entry := [],
               expense_amount_entry := Text_Empty\<rparr>)))"

text \<open>
  The loop of \<open>edit_expense\<close>: the first pair that equals the selected line is
  replaced, and the loop breaks. \<open>float(selected_expense[1])\<close> is evaluated only for a
  pair whose name matches.
\<close>

fun replace_first ::
  "(string \<times> float64) list \<Rightarrow> selected_expense \<Rightarrow> string \<times> float64 \<Rightarrow> error + (string \<times> float64) list" where
  "replace_first [] sel new = Inr []"
| "replace_first ((name, amount) # xs) sel new =
     (if name = fst sel then
        (case py_float (snd sel) of
           Inl e \<Rightarrow> Inl e
         | Inr v \<Rightarrow>
             if float_eq amount v then Inr (new # xs)
             else (case replace_first xs sel new of
                     Inl e \<Rightarrow> Inl e
                   | Inr ys \<Rightarrow> Inr ((name, amount) # ys)))
      else (case replace_first xs sel new of
              Inl e \<Rightarrow> Inl e
            | Inr ys \<Rightarrow> Inr ((name, amount) # ys)))"

text \<open>The loop of \<open>delete_expense\<close>: the first pair that equals the selected line goes.\<close>

fun remove_first ::
  "(string \<times> float64) list \<Rightarrow> selected_expense \<Rightarrow> error + (string \<times> float64) list" where
  "remove_first [] sel = Inr []"
| "remove_first ((name, amount) # xs) sel =
     (if name = fst sel then
        (case py_float (snd sel) of
           Inl e \<Rightarrow> Inl e
         | Inr v \<Rightarrow>
             if float_eq amount v then Inr xs
             else (case remove_first xs sel of
                     Inl e \<Rightarrow> Inl e
                   | Inr ys \<Rightarrow> Inr ((name, amount) # ys)))
      else (case remove_first xs sel of
              Inl e \<Rightarrow> Inl e
            | Inr ys \<Rightarrow> Inr ((name, amount) # ys)))"

definition edit_expense :: "selected_expense option \<Rightarrow> app \<Rightarrow> app" where
  "edit_expense current_item a =
     (case current_item of
        None \<Rightarrow> notify Critical_Select_Expense a
      | Some selected \<Rightarrow>
          (let expense_name = expense_name_entry a in
           case py_float (expense_amount_entry a) of
             Inl _ \<Rightarrow> notify Critical_Invalid_Amount a
           | Inr expense_amount \<Rightarrow>
               (case replace_first (expenses a) selected (expense_name, expense_amount) of
                  Inl _ \<Rightarrow> notify Critical_Invalid_Amount a
                | Inr xs \<Rightarrow>
                    (let a1 = snd (calculate_totals (a\<lparr>expenses := xs\<rparr>))
                     in a1\<lparr>all_expanses := insert expense_name (all_expanses a1)\<rparr>))))"

definition delete_expense :: "selected_expense option \<Rightarrow> app \<Rightarrow> app" where
  "delete_expense current_item a =
     (case current_item of
        None \<Rightarrow> notify Critical_Select_Expense a
      | Some selected \<Rightarrow>
          (case remove_first (expenses a) selected of
             Inl _ \<Rightarrow> notify Critical_Invalid_Expense a
           | Inr xs \<Rightarrow> snd (calculate_totals (a\<lparr>expenses := xs\<rparr>))))"

subsection \<open>Notions used in the statements\<close>

text \<open>
  A pair of the expenses list equals the selected line when the names agree and the
  amount is equal, as floats, to what \<open>float()\<close> reads from the line: the test of
  both loops.
\<close>

definition matches :: "selected_expense \<Rightarrow> string \<times> float64 \<Rightarrow> bool" where
  "matches sel p =
     (fst p = fst sel \<and>
      (case py_float (snd sel) of Inl _ \<Rightarrow> False | Inr v \<Rightarrow> float_eq (snd p) v))"

text \<open>
  The stored sheet has one row per date and is written in ascending order of the date
  text.
\<close>

definition sorted_store :: "row list \<Rightarrow> bool" where
  "sorted_store df = sorted_wrt (<) (map Date df)"

text \<open>A form with three expenses, two of them equal, used to evaluate the operations.\<close>

definition example_form :: app where
  "example_form =
     \<lparr>excel_file = Some [],
      date_picker = (2024, 3, 10),
      all_expanses = {},
      expenses = [(''ice'', Finite 3), (''gas'', Finite 5), (''ice'', Finite 3)],
      last_day_credit = Finite 100,
      last_day_cash = Finite 50,
      cash_entry = Text_Num (Finite 10),
      credit_entry = Text_Num (Finite 20),
      credit_withdraw_entry = Text_Num (Finite 5),
      expense_name_entry = ''tea'',
      expense_amount_entry = Text_Num (Finite 7),
      total_expenses_result = Text_Num (Finite 11),
      total_sellings_result = Text_Num (Finite 30),
      total_credit_result = Text_Num (Finite 115),
      total_cash_result = Text_Num (Finite 54),
      shown = []\<rparr>"

text \<open>
  Rows and a small stored sheet used to evaluate the operations: the row of the
  first-day dialog (all flows 0), a day's row, and a sheet of four dates in order.
\<close>

definition bootstrap_row :: "string \<Rightarrow> real \<Rightarrow> real \<Rightarrow> row" where
  "bootstrap_row d c k =
     \<lparr>Date = d, Cash = 0, Credit = 0, Credit_Withdraw = 0, Total_Sellings = 0,
      Total_Credit = Finite c, Total_Cash = Finite k, Total_Expenses = 0,
      Expenses = No_Expenses\<rparr>"

definition day_row :: "string \<Rightarrow> real \<Rightarrow> real \<Rightarrow> real \<Rightarrow> real \<Rightarrow> real \<Rightarrow> real \<Rightarrow> row" where
  "day_row d cash credit withdraw spent c k =
     \<lparr>Date = d, Cash = Finite cash, Credit = Finite credit,
      Credit_Withdraw = Finite withdraw, Total_Sellings = Finite (cash + credit),
      Total_Credit = Finite c, Total_Cash = Finite k, Total_Expenses = Finite spent,
      Expenses = Expense_List [(''ice'', Finite spent)]\<rparr>"

definition example_store :: "row list" where
  "example_store =
     [bootstrap_row ''2024-03-09'' 100 50,
      day_row ''2024-03-10'' 10 20 5 3 115 62,
      day_row ''2024-03-12'' 40 0 15 0 100 117,
      day_row ''2024-03-14'' 5 30 0 2 130 120]"

text \<open>
  Rows for the example sheet: a day between two stored days, a day after the last, a
  first-day row earlier than the sheet with other opening balances; and a sheet whose
  credit totals are not whole numbers, so that sums are rounded.
\<close>

definition middle_day_row :: row where
  "middle_day_row = day_row ''2024-03-11'' 7 8 2 4 121 67"

definition late_day_row :: row where
  "late_day_row = day_row ''2024-03-15'' 1 2 0 0 132 121"

definition new_opening_row :: row where
  "new_opening_row = bootstrap_row ''2024-03-08'' 70 20"

definition decimal_bootstrap :: "string \<Rightarrow> real \<Rightarrow> row" where
  "decimal_bootstrap d c =
     \<lparr>Date = d, Cash = 0, Credit = 0, Credit_Withdraw = 0, Total_Sellings = 0,
      Total_Credit = round64 c, Total_Cash = Finite 50, Total_Expenses = 0,
      Expenses = No_Expenses\<rparr>"

definition decimal_day :: "real \<Rightarrow> row" where
  "decimal_day c =
     \<lparr>Date = ''2024-03-10'', Cash = 0, Credit = round64 (1001 / 10), Credit_Withdraw = 0,
      Total_Sellings = round64 (1001 / 10), Total_Credit = round64 c,
      Total_Cash = Finite 50, Total_Expenses = 0, Expenses = No_Expenses\<rparr>"

definition decimal_store :: "row list" where
  "decimal_store = [decimal_bootstrap ''2024-03-09'' (1001 / 10), decimal_day (2002 / 10)]"

text \<open>Edits of a stored day and of the last stored day of the example sheet.\<close>

definition edited_day_row :: row where
  "edited_day_row = day_row ''2024-03-10'' 10 25 5 3 120 62"

definition edited_last_row :: row where
  "edited_last_row = day_row ''2024-03-14'' 6 30 0 2 130 121"

text \<open>
  The texts that the date picker produces: \<open>yyyy-MM-dd\<close> of a calendar date. Every
  date that the program writes into the sheet is such a text.
\<close>

definition date_text :: "string \<Rightarrow> bool" where
  "date_text s = (case Timestamp s of Inl _ \<Rightarrow> False | Inr q \<Rightarrow> toString q = s)"

section \<open>Properties of the ledger\<close>

subsection \<open>Float arithmetic\<close>

lemma float64_add_zero [simp]: "a + (0::float64) = a"
  by (cases a) (simp_all add: plus_float64_def zero_float64_def)

lemma float64_zero_add [simp]: "(0::float64) + a = a"
  by (cases a) (simp_all add: plus_float64_def zero_float64_def)

lemma float64_diff_zero [simp]: "a - (0::float64) = a"
  by (cases a) (simp_all add: minus_float64_def zero_float64_def)

lemma float64_diff_self: "is_finite a \<Longrightarrow> a - a = 0"
  by (cases a) (simp_all add: minus_float64_def zero_float64_def is_finite_def round64_def)

lemma float_eq_refl: "a \<noteq> NaN \<Longrightarrow> float_eq a a"
  by (simp add: float_eq_def)

lemmas float64_eval = plus_float64_def minus_float64_def zero_float64_def round64_def
  round_pos_def round_half_even_def ilog2_def pow2_def compute_bitlen Let_def

subsection \<open>The expenses list\<close>

lemma expenses_calculate_totals: "expenses (snd (calculate_totals a)) = expenses a"
  by (simp add: calculate_totals_def notify_def Let_def split: sum.splits)

lemma replace_first_no_match:
  "\<forall>p\<in>set xs. \<not> matches sel p \<Longrightarrow> replace_first xs sel new = Inr ys \<Longrightarrow> ys = xs"
proof (induction xs arbitrary: ys)
  case Nil
  then show ?case by simp
next
  case (Cons p xs)
  obtain name amount where p: "p = (name, amount)" by (cases p)
  from Cons.prems p obtain zs where zs: "replace_first xs sel new = Inr zs" "ys = p # zs"
    by (auto simp: matches_def split: sum.splits if_splits)
  from Cons.IH[OF _ zs(1)] Cons.prems(1) zs(2) show ?case by simp
qed

lemma remove_first_no_match:
  "\<forall>p\<in>set xs. \<not> matches sel p \<Longrightarrow> remove_first xs sel = Inr ys \<Longrightarrow> ys = xs"
proof (induction xs arbitrary: ys)
  case Nil
  then show ?case by simp
next
  case (Cons p xs)
  obtain name amount where p: "p = (name, amount)" by (cases p)
  from Cons.prems p obtain zs where zs: "remove_first xs sel = Inr zs" "ys = p # zs"
    by (auto simp: matches_def split: sum.splits if_splits)
  from Cons.IH[OF _ zs(1)] Cons.prems(1) zs(2) show ?case by simp
qed

lemma replace_first_at:
  "i < length xs \<Longrightarrow> matches sel (xs ! i) \<Longrightarrow> \<forall>j<i. \<not> matches sel (xs ! j) \<Longrightarrow>
   replace_first xs sel new = Inr (xs[i := new])"
proof (induction xs arbitrary: i)
  case Nil
  then show ?case by simp
next
  case (Cons p xs)
  obtain name amount where p: "p = (name, amount)" by (cases p)
  show ?case
  proof (cases i)
    case 0
    with Cons.prems p show ?thesis by (auto simp: matches_def split: sum.splits)
  next
    case (Suc k)
    with Cons.prems have k: "k < length xs" "matches sel (xs ! k)"
      "\<forall>j<k. \<not> matches sel (xs ! j)" by auto
    from Cons.prems Suc have n0: "\<not> matches sel p" by auto
    from k(2) obtain v where v: "py_float (snd sel) = Inr v"
      by (auto simp: matches_def split: sum.splits)
    from Cons.IH[OF k] n0 p v Suc show ?thesis by (auto simp: matches_def)
  qed
qed

lemma remove_first_at:
  "i < length xs \<Longrightarrow> matches sel (xs ! i) \<Longrightarrow> \<forall>j<i. \<not> matches sel (xs ! j) \<Longrightarrow>
   remove_first xs sel = Inr (take i xs @ drop (Suc i) xs)"
proof (induction xs arbitrary: i)
  case Nil
  then show ?case by simp
next
  case (Cons p xs)
  obtain name amount where p: "p = (name, amount)" by (cases p)
  show ?case
  proof (cases i)
    case 0
    with Cons.prems p show ?thesis by (auto simp: matches_def split: sum.splits)
  next
    case (Suc k)
    with Cons.prems have k: "k < length xs" "matches sel (xs ! k)"
      "\<forall>j<k. \<not> matches sel (xs ! j)" by auto
    from Cons.prems Suc have n0: "\<not> matches sel p" by auto
    from k(2) obtain v where v: "py_float (snd sel) = Inr v"
      by (auto simp: matches_def split: sum.splits)
    from Cons.IH[OF k] n0 p v Suc show ?thesis by (auto simp: matches_def)
  qed
qed

lemma edit_expense_no_match:
  assumes "\<forall>p\<in>set (expenses a). \<not> matches sel p"
  shows "expenses (edit_expense (Some sel) a) = expenses a"
  using replace_first_no_match[OF assms]
  by (auto simp: edit_expense_def Let_def notify_def expenses_calculate_totals
      split: sum.splits)

lemma delete_expense_no_match:
  assumes "\<forall>p\<in>set (expenses a). \<not> matches sel p"
  shows "expenses (delete_expense (Some sel) a) = expenses a"
  using remove_first_no_match[OF assms]
  by (auto simp: delete_expense_def Let_def notify_def expenses_calculate_totals
      split: sum.splits)

text \<open>
  Claim C10. With several pairs of the expenses list equal to the selected line,
  \<open>edit_expense\<close> replaces and \<open>delete_expense\<close> removes the first of them only, at the
  least matching position \<open>i\<close>, and every other position keeps its pair; with no
  matching pair the list stays as it is. \<open>edit_expense\<close> reads the amount entry, which
  has to hold a number for the edit to happen; \<open>delete_expense\<close> does not read it.
\<close>

theorem C10_first_match_only:
  "(i < length (expenses a) \<and> matches sel (expenses a ! i)
      \<and> (\<forall>j<i. \<not> matches sel (expenses a ! j)) \<longrightarrow>
    (\<forall>expense_amount. py_float (expense_amount_entry a) = Inr expense_amount \<longrightarrow>
       expenses (edit_expense (Some sel) a)
         = (expenses a)[i := (expense_name_entry a, expense_amount)])
    \<and> expenses (delete_expense (Some sel) a)
         = take i (expenses a) @ drop (Suc i) (expenses a))
   \<and> ((\<forall>p\<in>set (expenses a). \<not> matches sel p) \<longrightarrow>
    expenses (edit_expense (Some sel) a) = expenses a
    \<and> expenses (delete_expense (Some sel) a) = expenses a)"
  using edit_expense_no_match[of a sel] delete_expense_no_match[of a sel]
  by (auto simp: edit_expense_def delete_expense_def Let_def expenses_calculate_totals
      replace_first_at remove_first_at)

theorem C10_first_match_only_witness:
  "matches (''ice'', Text_Num (Finite 3)) (expenses example_form ! 0)
   \<and> py_float (expense_amount_entry example_form) = Inr (Finite 7)
   \<and> expenses (edit_expense (Some (''ice'', Text_Num (Finite 3))) example_form)
       = [(''tea'', Finite 7), (''gas'', Finite 5), (''ice'', Finite 3)]
   \<and> expenses (delete_expense (Some (''ice'', Text_Num (Finite 3))) example_form)
       = [(''gas'', Finite 5), (''ice'', Finite 3)]
   \<and> expenses (delete_expense (Some (''ice'', Text_Num (Finite 3)))
         (example_form\<lparr>expense_amount_entry := Text_Empty\<rparr>))
       = [(''gas'', Finite 5), (''ice'', Finite 3)]
   \<and> list_all (\<lambda>p. \<not> matches (''oil'', Text_Num (Finite 3)) p) (expenses example_form)
   \<and> expenses (edit_expense (Some (''oil'', Text_Num (Finite 3))) example_form)
       = expenses example_form
   \<and> expenses (delete_expense (Some (''oil'', Text_Num (Finite 3))) example_form)
       = expenses example_form"
  using C10_first_match_only [of 0 example_form "(''ice'', Text_Num (Finite 3))"]
    C10_first_match_only [of 0 "example_form\<lparr>expense_amount_entry := Text_Empty\<rparr>"
      "(''ice'', Text_Num (Finite 3))"]
    C10_first_match_only [of 0 example_form "(''oil'', Text_Num (Finite 3))"]
  by (simp add: example_form_def matches_def py_float_def float_eq_def)

subsection \<open>Data frame lemmas\<close>

lemma sorted_store_sorted: "sorted_store df \<Longrightarrow> sorted (map Date df)"
  unfolding sorted_store_def by (simp add: strict_sorted_iff)

lemma sorted_store_distinct: "sorted_store df \<Longrightarrow> distinct (map Date df)"
  unfolding sorted_store_def by (simp add: strict_sorted_iff)

lemma date_exists_if_equal: "r \<in> set df \<Longrightarrow> Date r = d \<Longrightarrow> date_exists df d"
  by (auto simp: date_exists_def str_contains_def list_ex_iff)

lemma not_date_exists_neq: "\<not> date_exists df d \<Longrightarrow> r \<in> set df \<Longrightarrow> Date r \<noteq> d"
  using date_exists_if_equal by blast

lemma index_of_date_first:
  assumes "i < length df" "Date (df ! i) = d" "\<forall>j<i. Date (df ! j) \<noteq> d"
  shows "first_elem (index_of_date df d) = Inr i"
proof -
  have "[0..<length df] = [0..<i] @ i # [Suc i..<length df]"
    using assms(1) by (metis less_imp_le_nat upt_add_eq_append upt_conv_Cons le_add_diff_inverse zero_le)
  moreover have "filter (\<lambda>j. Date (df ! j) = d) [0..<i] = []"
    using assms(3) by (auto simp: filter_empty_conv)
  ultimately show ?thesis
    using assms(2) by (simp add: index_of_date_def first_elem_def)
qed

lemma index_of_date_none:
  assumes "\<forall>r\<in>set df. Date r \<noteq> d"
  shows "first_elem (index_of_date df d) = Inl IndexError"
proof -
  have "filter (\<lambda>j. Date (df ! j) = d) [0..<length df] = []"
    using assms by (auto simp: filter_empty_conv)
  then show ?thesis by (simp add: index_of_date_def first_elem_def)
qed

lemma sort_snoc:
  "sorted (map f xs) \<Longrightarrow>
   foldr (insort_key f) xs [x]
     = filter (\<lambda>y. f y \<le> f x) xs @ [x] @ filter (\<lambda>y. f x < f y) xs"
proof (induction xs)
  case Nil
  then show ?case by simp
next
  case (Cons a xs)
  then have IH: "foldr (insort_key f) xs [x]
     = filter (\<lambda>y. f y \<le> f x) xs @ [x] @ filter (\<lambda>y. f x < f y) xs"
    and le: "\<forall>y\<in>set xs. f a \<le> f y" by auto
  show ?case
  proof (cases "f a \<le> f x")
    case True
    have "insort_key f a (filter (\<lambda>y. f y \<le> f x) xs @ [x] @ filter (\<lambda>y. f x < f y) xs)
          = a # (filter (\<lambda>y. f y \<le> f x) xs @ [x] @ filter (\<lambda>y. f x < f y) xs)"
      using le True by (intro insort_is_Cons) auto
    with True IH show ?thesis by simp
  next
    case False
    then have gt: "\<forall>y\<in>set xs. f x < f y" using le by auto
    then have e: "filter (\<lambda>y. f y \<le> f x) xs = []" "filter (\<lambda>y. f x < f y) xs = xs"
      by (auto simp: filter_empty_conv)
    have "insort_key f a xs = a # xs" using le by (intro insort_is_Cons) auto
    with False IH e show ?thesis by simp
  qed
qed

lemma sort_values_snoc:
  assumes "sorted_store df" "\<forall>r\<in>set df. Date r \<noteq> Date data"
  shows "sort_values (df @ [data])
     = filter (\<lambda>r. Date r < Date data) df @ [data] @ filter (\<lambda>r. Date data < Date r) df"
proof -
  have "filter (\<lambda>r. Date r \<le> Date data) df = filter (\<lambda>r. Date r < Date data) df"
    using assms(2) by (intro filter_cong) auto
  then show ?thesis
    using sort_snoc[OF sorted_store_sorted[OF assms(1)], of data]
    by (simp add: sort_values_def sort_key_def)
qed

lemma sort_values_id: "sorted (map Date df) \<Longrightarrow> sort_values df = df"
  by (simp add: sort_values_def sort_key_id_if_sorted)

lemma Date_add_totals [simp]: "Date (add_totals c k r) = Date r"
  by (simp add: add_totals_def)

lemma map_Date_add_totals [simp]: "map Date (map (add_totals c k) df) = map Date df"
  by simp

lemma map_Date_iloc_add [simp]: "map Date (iloc_add i c k df) = map Date df"
proof -
  have "map Date (iloc_add i c k df) = map Date (take i df) @ map Date (drop i df)"
    by (simp add: iloc_add_def)
  also have "\<dots> = map Date (take i df @ drop i df)" by (simp only: map_append)
  finally show ?thesis by simp
qed

lemma add_totals_zero [simp]: "add_totals 0 0 r = r"
  by (simp add: add_totals_def)

subsection \<open>What \<open>save_data\<close> writes, case by case\<close>

lemma save_data_empty: "save_data [] data = Inr [data]"
  by (simp add: save_data_def)

lemma iloc_add_Cons_Suc: "iloc_add (Suc i) c k (x # xs) = x # iloc_add i c k xs"
  by (simp add: iloc_add_def)

lemma iloc_add_0: "iloc_add 0 c k xs = map (add_totals c k) xs"
  by (simp add: iloc_add_def)

lemma iloc_add_append_length:
  "iloc_add (length xs + i) c k (xs @ ys) = xs @ iloc_add i c k ys"
  by (simp add: iloc_add_def)

lemma save_data_insert_first:
  assumes "df \<noteq> []" "sorted_store df" "\<not> date_exists df (Date data)"
    and "\<forall>r\<in>set df. Date data < Date r"
  shows "save_data df data =
     Inr (data #
          map (\<lambda>r. add_totals (Credit data - Credit_Withdraw data)
                     (Cash data + Credit_Withdraw data - Total_Expenses data)
                     (add_totals (Total_Credit data - Total_Credit (hd df))
                        (Total_Cash data - Total_Cash (hd df)) r)) df)"
proof -
  have ne: "\<forall>r\<in>set df. Date r \<noteq> Date data" using assms(4) by auto
  have f1: "filter (\<lambda>r. Date r < Date data) df = []"
    using assms(4) by (auto simp: filter_empty_conv)
  have f2: "filter (\<lambda>r. Date data < Date r) df = df"
    using assms(4) by (auto simp: filter_id_conv)
  have s: "sort_values (df @ [data]) = data # df"
    using sort_values_snoc[OF assms(2) ne] f1 f2 by simp
  have idx: "first_elem (index_of_date (data # df) (Date data)) = Inr 0"
    by (rule index_of_date_first) auto
  obtain r rs where df: "df = r # rs" using assms(1) by (cases df) auto
  have srt: "sorted (map Date (data # df))"
    using sorted_store_sorted[OF assms(2)] assms(4) by (auto simp: less_imp_le)
  let ?c = "Total_Credit data - Total_Credit r" and ?k = "Total_Cash data - Total_Cash r"
  let ?res = "iloc_add (Suc 0) ((Credit data - Credit_Withdraw data)) ((Cash data + Credit_Withdraw data - Total_Expenses data))
                (iloc_add (Suc 0) ?c ?k (data # df))"
  have res: "?res = data #
      map (\<lambda>r. add_totals (Credit data - Credit_Withdraw data)
                 (Cash data + Credit_Withdraw data - Total_Expenses data)
                 (add_totals ?c ?k r)) df"
    by (simp add: iloc_add_Cons_Suc iloc_add_0 comp_def)
  have "sorted (map Date ?res)" using srt by (simp only: map_Date_iloc_add)
  then have "sort_values ?res = ?res" by (rule sort_values_id)
  then show ?thesis
    using assms(1,3) s idx res df
    by (simp add: save_data_def Let_def)
qed


lemma save_data_insert_later:
  assumes "sorted_store df" "\<not> date_exists df (Date data)"
    and "\<exists>r\<in>set df. Date r < Date data"
  shows "save_data df data =
     Inr (filter (\<lambda>r. Date r < Date data) df @ [data]
          @ map (add_totals ((Credit data - Credit_Withdraw data)) ((Cash data + Credit_Withdraw data - Total_Expenses data)))
              (filter (\<lambda>r. Date data < Date r) df))"
proof -
  let ?B = "filter (\<lambda>r. Date r < Date data) df"
  let ?A = "filter (\<lambda>r. Date data < Date r) df"
  have ne: "\<forall>r\<in>set df. Date r \<noteq> Date data"
    using assms(2) not_date_exists_neq by blast
  have dfne: "df \<noteq> []" using assms(3) by auto
  have s: "sort_values (df @ [data]) = ?B @ [data] @ ?A"
    by (rule sort_values_snoc[OF assms(1) ne])
  have Bne: "?B \<noteq> []" using assms(3) by (auto simp: filter_empty_conv)
  have idx: "first_elem (index_of_date (?B @ [data] @ ?A) (Date data)) = Inr (length ?B)"
  proof (rule index_of_date_first)
    show "length ?B < length (?B @ [data] @ ?A)" by simp
    show "Date ((?B @ [data] @ ?A) ! length ?B) = Date data" by (simp add: nth_append)
    show "\<forall>j<length ?B. Date ((?B @ [data] @ ?A) ! j) \<noteq> Date data"
    proof (intro allI impI)
      fix j assume j: "j < length ?B"
      then have "?B ! j \<in> set ?B" by (rule nth_mem)
      then have "Date (?B ! j) < Date data" by auto
      with j show "Date ((?B @ [data] @ ?A) ! j) \<noteq> Date data" by (simp add: nth_append)
    qed
  qed
  have pos: "length ?B \<noteq> 0" using Bne by simp
  let ?res = "iloc_add (length ?B + 1) ((Credit data - Credit_Withdraw data)) ((Cash data + Credit_Withdraw data - Total_Expenses data)) (?B @ [data] @ ?A)"
  have res: "?res = ?B @ [data] @ map (add_totals ((Credit data - Credit_Withdraw data)) ((Cash data + Credit_Withdraw data - Total_Expenses data))) ?A"
    using iloc_add_append_length[of ?B 1 "(Credit data - Credit_Withdraw data)" "(Cash data + Credit_Withdraw data - Total_Expenses data)" "[data] @ ?A"]
    by (simp add: iloc_add_Cons_Suc iloc_add_0)
  have "sorted (map Date (sort_values (df @ [data])))"
    by (simp add: sort_values_def)
  then have "sorted (map Date (?B @ [data] @ ?A))" using s by simp
  then have "sorted (map Date ?res)" by (simp only: map_Date_iloc_add)
  then have "sort_values ?res = ?res" by (rule sort_values_id)
  then show ?thesis
    using dfne assms(2) s idx pos res
    by (simp add: save_data_def Let_def)
qed


lemma sorted_store_nth_neq:
  assumes "sorted_store df" "i < length df" "j < i"
  shows "Date (df ! j) \<noteq> Date (df ! i)"
proof -
  have "map Date df ! j < map Date df ! i"
    using assms unfolding sorted_store_def
    by (intro sorted_wrt_nth_less) auto
  then show ?thesis using assms by simp
qed

lemma save_data_edit:
  assumes "sorted_store df" "i < length df" "Date (df ! i) = Date data"
  shows "save_data df data =
     Inr (take i df @ [data]
          @ map (add_totals (Total_Credit data - Total_Credit (df ! i))
                            (Total_Cash data - Total_Cash (df ! i)))
              (drop (Suc i) df))"
proof -
  let ?c = "Total_Credit data - Total_Credit (df ! i)"
  let ?k = "Total_Cash data - Total_Cash (df ! i)"
  have dfne: "df \<noteq> []" using assms(2) by auto
  have ex: "date_exists df (Date data)"
    using assms(2,3) by (intro date_exists_if_equal[of "df ! i"]) auto
  have idx: "first_elem (index_of_date df (Date data)) = Inr i"
    using assms sorted_store_nth_neq[OF assms(1,2)]
    by (intro index_of_date_first) auto
  have d: "drop i df = df ! i # drop (Suc i) df"
    using assms(2) by (simp add: Cons_nth_drop_Suc)
  have upd: "(iloc_add i ?c ?k df)[i := data]
      = take i df @ [data] @ map (add_totals ?c ?k) (drop (Suc i) df)"
    using assms(2) by (simp add: iloc_add_def list_update_append d)
  have "map Date ((iloc_add i ?c ?k df)[i := data]) = (map Date df)[i := Date (df ! i)]"
    by (simp add: map_update assms(3) del: map_Date_iloc_add)
       (simp only: map_Date_iloc_add flip: assms(3))
  also have "\<dots> = map Date df" using assms(2) by (simp add: list_update_same_conv)
  finally have "sorted (map Date ((iloc_add i ?c ?k df)[i := data]))"
    using sorted_store_sorted[OF assms(1)] by simp
  then have "sort_values ((iloc_add i ?c ?k df)[i := data]) = (iloc_add i ?c ?k df)[i := data]"
    by (rule sort_values_id)
  then show ?thesis
    using dfne ex idx upd by (simp add: save_data_def Let_def)
qed

lemma example_store_simps:
  "example_store \<noteq> []" "sorted_store example_store"
  by (simp_all add: sorted_store_def example_store_def bootstrap_row_def day_row_def)

lemma Date_comp_add_totals [simp]: "Date \<circ> add_totals c k = Date"
  by (rule ext) simp

lemma map_add_totals_zero [simp]: "map (add_totals 0 0) df = df"
  by (induction df) simp_all

lemma save_data_shape:
  assumes "sorted_store df" "save_data df data = Inr df1"
  shows "sorted_store df1 \<and> (\<exists>i<length df1. df1 ! i = data)"
proof (cases "df = []")
  case True
  with assms(2) have "df1 = [data]" by (simp add: save_data_empty)
  then show ?thesis by (simp add: sorted_store_def)
next
  case ne: False
  show ?thesis
  proof (cases "date_exists df (Date data)")
    case False
    then have neq: "\<forall>r\<in>set df. Date r \<noteq> Date data"
      using not_date_exists_neq by blast
    have mapeq: "map Date (sort_values (df @ [data]))
        = map Date (filter (\<lambda>r. Date r < Date data) df) @ [Date data]
          @ map Date (filter (\<lambda>r. Date data < Date r) df)"
      using sort_values_snoc[OF assms(1) neq] by simp
    have "distinct (map Date (df @ [data]))"
      using sorted_store_distinct[OF assms(1)] neq by auto
    then have "distinct (map Date (sort_values (df @ [data])))"
      unfolding sort_values_def by (metis distinct_map distinct_sort set_sort)
    moreover have "sorted (map Date (sort_values (df @ [data])))"
      by (simp add: sort_values_def)
    ultimately have ss: "sorted_wrt (<) (map Date (sort_values (df @ [data])))"
      by (simp add: strict_sorted_iff)
    show ?thesis
    proof (cases "\<exists>r\<in>set df. Date r < Date data")
      case True
      from save_data_insert_later[OF assms(1) False True] assms(2)
      have df1: "df1 = filter (\<lambda>r. Date r < Date data) df @ [data]
          @ map (add_totals ((Credit data - Credit_Withdraw data)) ((Cash data + Credit_Withdraw data - Total_Expenses data)))
              (filter (\<lambda>r. Date data < Date r) df)" by simp
      have "map Date df1 = map Date (sort_values (df @ [data]))"
        unfolding df1 mapeq by simp
      with ss have "sorted_store df1" by (simp add: sorted_store_def)
      moreover have "df1 ! length (filter (\<lambda>r. Date r < Date data) df) = data"
        unfolding df1 by (simp add: nth_append)
      moreover have "length (filter (\<lambda>r. Date r < Date data) df) < length df1"
        unfolding df1 by simp
      ultimately show ?thesis by blast
    next
      case F2: False
      then have all: "\<forall>r\<in>set df. Date data < Date r" using neq by (metis linorder_neqE)
      from save_data_insert_first[OF ne assms(1) False all] assms(2)
      obtain c k c' k' where df1: "df1 = data # map (\<lambda>r. add_totals c k (add_totals c' k' r)) df"
        by auto
      have "sorted_wrt (<) (map Date df)" using assms(1) by (simp add: sorted_store_def)
      then have "sorted_store df1" using all unfolding df1
        by (auto simp: sorted_store_def comp_def)
      then show ?thesis unfolding df1 by auto
    qed
  next
    case True
    from assms(2) ne True obtain i where idx: "first_elem (index_of_date df (Date data)) = Inr i"
      by (auto simp: save_data_def Let_def split: sum.splits)
    then have "i \<in> set (index_of_date df (Date data))"
      by (auto simp: first_elem_def split: list.splits)
    then have i: "i < length df" "Date (df ! i) = Date data"
      by (auto simp: index_of_date_def)
    from save_data_edit[OF assms(1) i] assms(2)
    obtain c k where df1: "df1 = take i df @ [data] @ map (add_totals c k) (drop (Suc i) df)"
      by auto
    have "map Date df1 = map Date (take i df) @ [Date (df ! i)] @ map Date (drop (Suc i) df)"
      unfolding df1 using i(2) by simp
    also have "\<dots> = map Date (take i df @ df ! i # drop (Suc i) df)" by simp
    also have "\<dots> = map Date df" using i(1) by (simp add: id_take_nth_drop[symmetric])
    finally have "sorted_store df1" using assms(1) by (simp add: sorted_store_def)
    moreover have "df1 ! i = data" "i < length df1"
      unfolding df1 using i(1) by (simp_all add: nth_append)
    ultimately show ?thesis by blast
  qed
qed

lemma save_data_same_totals:
  assumes "sorted_store df" "i < length df" "Date (df ! i) = Date data"
    "Total_Credit data = Total_Credit (df ! i)" "Total_Cash data = Total_Cash (df ! i)"
    "is_finite (Total_Credit data)" "is_finite (Total_Cash data)"
  shows "save_data df data = Inr (df[i := data])"
proof -
  have "df[i := data] = take i df @ [data] @ drop (Suc i) df"
    using assms(2) by (simp add: upd_conv_take_nth_drop)
  then show ?thesis
    using save_data_edit[OF assms(1,2,3)] assms(4,5,6,7) by (simp add: float64_diff_self)
qed

subsection \<open>The example sheets\<close>

lemma example_facts:
  "\<not> date_exists example_store ''2024-03-08''"
  "\<forall>r\<in>set example_store. ''2024-03-08'' < Date r"
  "\<not> date_exists example_store ''2024-03-11''"
  "\<exists>r\<in>set example_store. Date r < ''2024-03-11''"
  "\<not> date_exists example_store ''2024-03-15''"
  "\<forall>r\<in>set example_store. Date r < ''2024-03-15''"
  by (simp_all add: date_exists_def str_contains_def example_store_def bootstrap_row_def
      day_row_def sublist_code)

lemma add_totals_lambda:
  "add_totals c k = (\<lambda>r. r\<lparr>Total_Credit := Total_Credit r + c, Total_Cash := Total_Cash r + k\<rparr>)"
  by (rule ext) (simp add: add_totals_def)

subsection \<open>Fresh insert after the first record\<close>

text \<open>
  Claim C5. A record whose date the store does not hold and that is not earlier than
  every stored date is inserted at its place in date order: the rows strictly before it
  are kept as they are (all fields), and every row strictly after it gets
  \<open>Credit - Credit_Withdraw\<close> of the new record added to its \<open>Total_Credit\<close> and
  \<open>Cash + Credit_Withdraw - Total_Expenses\<close> added to its \<open>Total_Cash\<close>, by float
  addition, its other fields unchanged. The store is taken in date order with distinct
  dates, as \<open>save_data\<close> leaves it.
\<close>

theorem C5_fresh_insert_propagation:
  assumes "sorted_store df" "\<not> date_exists df (Date data)"
    and "\<exists>r\<in>set df. Date r < Date data"
  shows "save_data df data =
     Inr (filter (\<lambda>r. Date r < Date data) df @ [data]
          @ map (\<lambda>r. r\<lparr>Total_Credit := Total_Credit r + (Credit data - Credit_Withdraw data),
                       Total_Cash := Total_Cash r
                          + (Cash data + Credit_Withdraw data - Total_Expenses data)\<rparr>)
              (filter (\<lambda>r. Date data < Date r) df))"
  using save_data_insert_later[OF assms] by (simp add: add_totals_lambda)

theorem C5_fresh_insert_propagation_witness:
  "sorted_store example_store \<and> \<not> date_exists example_store (Date middle_day_row)
   \<and> (\<exists>r\<in>set example_store. Date r < Date middle_day_row)
   \<and> save_data example_store middle_day_row =
       Inr [bootstrap_row ''2024-03-09'' 100 50,
            day_row ''2024-03-10'' 10 20 5 3 115 62,
            middle_day_row,
            day_row ''2024-03-12'' 40 0 15 0 106 122,
            day_row ''2024-03-14'' 5 30 0 2 136 125]"
proof -
  have h: "\<not> date_exists example_store (Date middle_day_row)"
    "\<exists>r\<in>set example_store. Date r < Date middle_day_row"
    using example_facts(3,4) by (simp_all add: middle_day_row_def day_row_def)
  show ?thesis
    using C5_fresh_insert_propagation[OF example_store_simps(2) h] example_store_simps(2) h
    by (simp add: example_store_def bootstrap_row_def day_row_def middle_day_row_def
        float64_eval)
qed


lemma decimal_facts:
  "decimal_store \<noteq> []" "sorted_store decimal_store"
  "\<not> date_exists decimal_store ''2024-03-08''"
  "\<forall>r\<in>set decimal_store. ''2024-03-08'' < Date r"
  by (simp_all add: date_exists_def str_contains_def decimal_store_def decimal_bootstrap_def
      decimal_day_def sublist_code sorted_store_def)

subsection \<open>Insert at position 0\<close>

text \<open>
  Claim C3. A row inserted at position 0 moves the totals of every row from position 1
  on by its own totals minus those of the former first row. \<open>save_data\<close> then also adds
  the flow difference of the new row, as for every insertion; the rows that the program
  inserts at position 0 are those of the first-day dialog, whose flow differences are
  0 (the comment in the source says so), and adding 0 changes no float.
\<close>

theorem C3_insert_at_position_0:
  assumes "df \<noteq> []" "sorted_store df" "\<not> date_exists df (Date data)"
    and "\<forall>r\<in>set df. Date data < Date r"
    and "Credit data - Credit_Withdraw data = 0"
    and "Cash data + Credit_Withdraw data - Total_Expenses data = 0"
  shows "save_data df data =
           Inr (data #
                map (\<lambda>r. r\<lparr>Total_Credit :=
                               Total_Credit r + (Total_Credit data - Total_Credit (df ! 0)),
                             Total_Cash :=
                               Total_Cash r + (Total_Cash data - Total_Cash (df ! 0))\<rparr>) df)"
  using save_data_insert_first[OF assms(1-4)] assms(1,5,6)
  by (simp add: hd_conv_nth add_totals_lambda)

theorem C3_insert_at_position_0_witness:
  "example_store \<noteq> [] \<and> sorted_store example_store
   \<and> \<not> date_exists example_store (Date new_opening_row)
   \<and> list_all (\<lambda>r. Date new_opening_row < Date r) example_store
   \<and> Credit new_opening_row - Credit_Withdraw new_opening_row = 0
   \<and> Cash new_opening_row + Credit_Withdraw new_opening_row
        - Total_Expenses new_opening_row = 0
   \<and> save_data example_store new_opening_row =
       Inr [new_opening_row,
            bootstrap_row ''2024-03-09'' 70 20,
            day_row ''2024-03-10'' 10 20 5 3 85 32,
            day_row ''2024-03-12'' 40 0 15 0 70 87,
            day_row ''2024-03-14'' 5 30 0 2 100 90]"
proof -
  have h: "\<not> date_exists example_store (Date new_opening_row)"
    "\<forall>r\<in>set example_store. Date new_opening_row < Date r"
    using example_facts(1,2) by (simp_all add: new_opening_row_def bootstrap_row_def)
  have z: "Credit new_opening_row - Credit_Withdraw new_opening_row = 0"
    "Cash new_opening_row + Credit_Withdraw new_opening_row
        - Total_Expenses new_opening_row = 0"
    by (simp_all add: new_opening_row_def bootstrap_row_def)
  show ?thesis
    using C3_insert_at_position_0[OF example_store_simps h z] example_store_simps h z
    by (simp add: example_store_def bootstrap_row_def day_row_def new_opening_row_def
        list_all_iff float64_eval)
qed

text \<open>
  The statement of claim C4, that the later rows move by the flow deltas of the
  inserted row and keep their pairwise differences, fails when the first-day dialog
  inserts a row with other opening balances than the former first row: its flows are 0,
  yet every later total moves by 30. And with totals that are not whole numbers the two
  later totals, 100.1 apart before the insertion, are 100.10000000000001 apart after
  it, both additions being rounded.
\<close>

theorem C4_counterexample:
  "save_data example_store new_opening_row =
       Inr [new_opening_row,
            bootstrap_row ''2024-03-09'' 70 20,
            day_row ''2024-03-10'' 10 20 5 3 85 32,
            day_row ''2024-03-12'' 40 0 15 0 70 87,
            day_row ''2024-03-14'' 5 30 0 2 100 90]
   \<and> Total_Credit (day_row ''2024-03-10'' 10 20 5 3 85 32)
        \<noteq> Total_Credit (example_store ! 1)
            + (Credit new_opening_row - Credit_Withdraw new_opening_row)
   \<and> save_data decimal_store (decimal_bootstrap ''2024-03-08'' (702 / 10)) =
       Inr [decimal_bootstrap ''2024-03-08'' (702 / 10),
            decimal_bootstrap ''2024-03-09'' (702 / 10),
            decimal_day (1703 / 10)]
   \<and> Total_Credit (decimal_day (1703 / 10))
          - Total_Credit (decimal_bootstrap ''2024-03-09'' (702 / 10))
        \<noteq> Total_Credit (decimal_store ! 1) - Total_Credit (decimal_store ! 0)"
proof -
  have h: "\<not> date_exists example_store (Date new_opening_row)"
    "\<forall>r\<in>set example_store. Date new_opening_row < Date r"
    using example_facts(1,2) by (simp_all add: new_opening_row_def bootstrap_row_def)
  have a: "save_data example_store new_opening_row =
       Inr [new_opening_row,
            bootstrap_row ''2024-03-09'' 70 20,
            day_row ''2024-03-10'' 10 20 5 3 85 32,
            day_row ''2024-03-12'' 40 0 15 0 70 87,
            day_row ''2024-03-14'' 5 30 0 2 100 90]"
    using save_data_insert_first[OF example_store_simps h]
    by (simp add: example_store_def bootstrap_row_def day_row_def new_opening_row_def
        add_totals_def float64_eval)
  have b: "Total_Credit (day_row ''2024-03-10'' 10 20 5 3 85 32)
        \<noteq> Total_Credit (example_store ! 1)
            + (Credit new_opening_row - Credit_Withdraw new_opening_row)"
    by (simp add: example_store_def bootstrap_row_def day_row_def new_opening_row_def
        float64_eval)
  have g: "\<not> date_exists decimal_store (Date (decimal_bootstrap ''2024-03-08'' (702 / 10)))"
    "\<forall>r\<in>set decimal_store. Date (decimal_bootstrap ''2024-03-08'' (702 / 10)) < Date r"
    using decimal_facts(3,4) by (simp_all add: decimal_bootstrap_def)
  have c: "save_data decimal_store (decimal_bootstrap ''2024-03-08'' (702 / 10)) =
       Inr [decimal_bootstrap ''2024-03-08'' (702 / 10),
            decimal_bootstrap ''2024-03-09'' (702 / 10),
            decimal_day (1703 / 10)]"
    using save_data_insert_first[OF decimal_facts(1,2) g]
    by (simp add: decimal_store_def decimal_bootstrap_def decimal_day_def
        add_totals_def float64_eval)
  have d: "Total_Credit (decimal_day (1703 / 10))
          - Total_Credit (decimal_bootstrap ''2024-03-09'' (702 / 10))
        \<noteq> Total_Credit (decimal_store ! 1) - Total_Credit (decimal_store ! 0)"
    by (simp add: decimal_store_def decimal_bootstrap_def decimal_day_def float64_eval)
  from a b c d show ?thesis by blast
qed


text \<open>
  Claim C4, as the code has it: after the insertion of a row earlier than all stored
  rows, each later row has the same two amounts added to its totals, one after the
  other and each sum rounded: first the inserted row's total minus the total of the
  former first row, then the inserted row's own flow difference.
\<close>

theorem C4_backfill_shift:
  assumes "df \<noteq> []" "sorted_store df" "\<not> date_exists df (Date data)"
    and "\<forall>r\<in>set df. Date data < Date r"
  shows "save_data df data =
           Inr (data #
                map (\<lambda>r. r\<lparr>Total_Credit :=
                               Total_Credit r + (Total_Credit data - Total_Credit (df ! 0))
                                 + (Credit data - Credit_Withdraw data),
                             Total_Cash :=
                               Total_Cash r + (Total_Cash data - Total_Cash (df ! 0))
                                 + (Cash data + Credit_Withdraw data - Total_Expenses data)\<rparr>)
                  df)"
  using save_data_insert_first[OF assms] assms(1)
  by (simp add: hd_conv_nth add_totals_lambda)

theorem C4_backfill_shift_witness:
  "decimal_store \<noteq> [] \<and> sorted_store decimal_store
   \<and> \<not> date_exists decimal_store (Date (decimal_bootstrap ''2024-03-08'' (702 / 10)))
   \<and> list_all (\<lambda>r. Date (decimal_bootstrap ''2024-03-08'' (702 / 10)) < Date r) decimal_store
   \<and> save_data decimal_store (decimal_bootstrap ''2024-03-08'' (702 / 10)) =
       Inr [decimal_bootstrap ''2024-03-08'' (702 / 10),
            decimal_bootstrap ''2024-03-09'' (702 / 10),
            decimal_day (1703 / 10)]"
proof -
  have g: "\<not> date_exists decimal_store (Date (decimal_bootstrap ''2024-03-08'' (702 / 10)))"
    "\<forall>r\<in>set decimal_store. Date (decimal_bootstrap ''2024-03-08'' (702 / 10)) < Date r"
    using decimal_facts(3,4) by (simp_all add: decimal_bootstrap_def)
  show ?thesis
    using C4_backfill_shift[OF decimal_facts(1,2) g] decimal_facts(1,2) g
    by (simp add: decimal_store_def decimal_bootstrap_def decimal_day_def list_all_iff
        float64_eval)
qed

subsection \<open>Saving again and propagation without effect\<close>

lemma iloc_add_zero [simp]: "iloc_add idx 0 0 df = df"
  by (simp add: iloc_add_def)

lemma iloc_add_beyond: "length df \<le> idx \<Longrightarrow> iloc_add idx c k df = df"
  by (simp add: iloc_add_def)

lemma save_data_resave:
  assumes "sorted_store df" "i < length df"
    "is_finite (Total_Credit (df ! i))" "is_finite (Total_Cash (df ! i))"
  shows "save_data df (df ! i) = Inr df"
  using save_data_same_totals[OF assms(1,2), of "df ! i"] assms(3,4) by simp

lemma save_data_twice:
  assumes "sorted_store df" "save_data df data = Inr df1"
    "is_finite (Total_Credit data)" "is_finite (Total_Cash data)"
  shows "save_data df1 data = Inr df1"
proof -
  from save_data_shape[OF assms(1,2)] obtain i where
    i: "sorted_store df1" "i < length df1" "df1 ! i = data" by blast
  from save_data_resave[OF i(1,2)] i(3) assms(3,4) show ?thesis by simp
qed

lemma save_data_append:
  assumes "sorted_store df" "\<not> date_exists df (Date data)" "\<forall>r\<in>set df. Date r < Date data"
  shows "save_data df data = Inr (df @ [data])"
proof (cases "df = []")
  case True
  then show ?thesis by (simp add: save_data_empty)
next
  case False
  then have ex: "\<exists>r\<in>set df. Date r < Date data" using assms(3) by (cases df) auto
  have a: "filter (\<lambda>r. Date r < Date data) df = df"
    using assms(3) by (simp add: filter_id_conv)
  have b: "filter (\<lambda>r. Date data < Date r) df = []"
    using assms(3) by (auto simp: filter_empty_conv)
  show ?thesis using save_data_insert_later[OF assms(1,2) ex] by (simp add: a b)
qed

lemma save_data_edit_last:
  assumes "sorted_store df" "df \<noteq> []" "Date data = Date (last df)"
  shows "save_data df data = Inr (butlast df @ [data])"
proof -
  have i: "length df - 1 < length df" using assms(2) by simp
  have d: "Date (df ! (length df - 1)) = Date data"
    using assms(2,3) by (simp add: last_conv_nth)
  show ?thesis
    using save_data_edit[OF assms(1) i d] assms(2) by (simp add: butlast_conv_take)
qed

text \<open>
  Claim C6. For a store in date order with distinct dates. An edit keeps every earlier
  row and adds to the totals of every later row the difference between the new and the
  stored totals of the edited row. Hence: saving a stored record again with unchanged
  values returns the store as it was, the differences being zero; saving any record a
  second time, after a first save that succeeded, returns the store of the first save;
  an edit with unchanged totals changes no other row; an edit of the last stored record
  changes no other row, there being no later one; and a record later than every stored
  one is appended and no stored row changes. The totals of the saved record are taken
  to be finite (the difference of an infinity with itself is NaN).
\<close>

theorem C6_idempotent_resave:
  assumes "sorted_store df"
  shows "(\<forall>i data. i < length df \<and> Date (df ! i) = Date data \<longrightarrow>
            save_data df data =
              Inr (take i df @ [data]
                   @ map (\<lambda>r. r\<lparr>Total_Credit :=
                                  Total_Credit r + (Total_Credit data - Total_Credit (df ! i)),
                                Total_Cash :=
                                  Total_Cash r + (Total_Cash data - Total_Cash (df ! i))\<rparr>)
                       (drop (Suc i) df)))
     \<and> (\<forall>i. i < length df \<and> is_finite (Total_Credit (df ! i))
              \<and> is_finite (Total_Cash (df ! i)) \<longrightarrow>
            save_data df (df ! i) = Inr df)
     \<and> (\<forall>data df1. save_data df data = Inr df1 \<and> is_finite (Total_Credit data)
              \<and> is_finite (Total_Cash data) \<longrightarrow>
            save_data df1 data = Inr df1)
     \<and> (\<forall>i data. i < length df \<and> Date (df ! i) = Date data
              \<and> Total_Credit data = Total_Credit (df ! i)
              \<and> Total_Cash data = Total_Cash (df ! i)
              \<and> is_finite (Total_Credit data) \<and> is_finite (Total_Cash data) \<longrightarrow>
            save_data df data = Inr (df[i := data]))
     \<and> (\<forall>data. df \<noteq> [] \<and> Date data = Date (last df) \<longrightarrow>
            save_data df data = Inr (butlast df @ [data]))
     \<and> (\<forall>data. \<not> date_exists df (Date data) \<and> (\<forall>r\<in>set df. Date r < Date data) \<longrightarrow>
            save_data df data = Inr (df @ [data]))"
proof (intro conjI allI impI)
  fix i and data :: row assume "i < length df \<and> Date (df ! i) = Date data"
  then show "save_data df data =
              Inr (take i df @ [data]
                   @ map (\<lambda>r. r\<lparr>Total_Credit :=
                                  Total_Credit r + (Total_Credit data - Total_Credit (df ! i)),
                                Total_Cash :=
                                  Total_Cash r + (Total_Cash data - Total_Cash (df ! i))\<rparr>)
                       (drop (Suc i) df))"
    using save_data_edit[OF assms, of i data] by (simp add: add_totals_lambda)
next
  fix i assume "i < length df \<and> is_finite (Total_Credit (df ! i))
              \<and> is_finite (Total_Cash (df ! i))"
  then show "save_data df (df ! i) = Inr df"
    using save_data_resave[OF assms] by blast
next
  fix data :: row and df1 assume "save_data df data = Inr df1 \<and> is_finite (Total_Credit data)
              \<and> is_finite (Total_Cash data)"
  then show "save_data df1 data = Inr df1"
    using save_data_twice[OF assms] by blast
next
  fix i and data :: row assume "i < length df \<and> Date (df ! i) = Date data
              \<and> Total_Credit data = Total_Credit (df ! i)
              \<and> Total_Cash data = Total_Cash (df ! i)
              \<and> is_finite (Total_Credit data) \<and> is_finite (Total_Cash data)"
  then show "save_data df data = Inr (df[i := data])"
    using save_data_same_totals[OF assms] by blast
next
  fix data :: row assume "df \<noteq> [] \<and> Date data = Date (last df)"
  then show "save_data df data = Inr (butlast df @ [data])"
    using save_data_edit_last[OF assms] by blast
next
  fix data :: row assume "\<not> date_exists df (Date data) \<and> (\<forall>r\<in>set df. Date r < Date data)"
  then show "save_data df data = Inr (df @ [data])"
    using save_data_append[OF assms] by blast
qed

theorem C6_idempotent_resave_witness:
  "sorted_store example_store
   \<and> save_data example_store edited_day_row =
       Inr [bootstrap_row ''2024-03-09'' 100 50,
            edited_day_row,
            day_row ''2024-03-12'' 40 0 15 0 105 117,
            day_row ''2024-03-14'' 5 30 0 2 135 120]
   \<and> save_data example_store (example_store ! 1) = Inr example_store
   \<and> save_data example_store edited_last_row =
       Inr [bootstrap_row ''2024-03-09'' 100 50,
            day_row ''2024-03-10'' 10 20 5 3 115 62,
            day_row ''2024-03-12'' 40 0 15 0 100 117,
            edited_last_row]
   \<and> save_data [bootstrap_row ''2024-03-09'' 100 50,
            day_row ''2024-03-10'' 10 20 5 3 115 62,
            day_row ''2024-03-12'' 40 0 15 0 100 117,
            edited_last_row] edited_last_row =
       Inr [bootstrap_row ''2024-03-09'' 100 50,
            day_row ''2024-03-10'' 10 20 5 3 115 62,
            day_row ''2024-03-12'' 40 0 15 0 100 117,
            edited_last_row]
   \<and> \<not> date_exists example_store (Date late_day_row)
   \<and> list_all (\<lambda>r. Date r < Date late_day_row) example_store
   \<and> save_data example_store late_day_row = Inr (example_store @ [late_day_row])"
proof -
  note r = C6_idempotent_resave[OF example_store_simps(2)]
  have l: "(1::nat) < length example_store" "example_store \<noteq> []"
    by (simp_all add: example_store_def)
  have f: "is_finite (Total_Credit (example_store ! 1))"
    "is_finite (Total_Cash (example_store ! 1))"
    "is_finite (Total_Credit edited_last_row)" "is_finite (Total_Cash edited_last_row)"
    by (simp_all add: example_store_def day_row_def edited_last_row_def is_finite_def)
  have d: "Date (example_store ! 1) = Date edited_day_row"
    "Date edited_last_row = Date (last example_store)"
    by (simp_all add: example_store_def day_row_def edited_day_row_def edited_last_row_def)
  have h: "\<not> date_exists example_store (Date late_day_row)"
    "\<forall>r\<in>set example_store. Date r < Date late_day_row"
    using example_facts(5,6) by (simp_all add: late_day_row_def day_row_def)
  from r l(1) d(1) have r1: "save_data example_store edited_day_row =
      Inr (take 1 example_store @ [edited_day_row]
           @ map (\<lambda>r. r\<lparr>Total_Credit :=
                     Total_Credit r + (Total_Credit edited_day_row - Total_Credit (example_store ! 1)),
                   Total_Cash :=
                     Total_Cash r + (Total_Cash edited_day_row - Total_Cash (example_store ! 1))\<rparr>)
               (drop (Suc 1) example_store))"
    by blast
  from r l(1) f(1,2) have r2: "save_data example_store (example_store ! 1) = Inr example_store"
    by blast
  from r l(2) d(2) have r3: "save_data example_store edited_last_row
      = Inr (butlast example_store @ [edited_last_row])" by blast
  from r r3 f(3,4) have r4: "save_data (butlast example_store @ [edited_last_row]) edited_last_row
      = Inr (butlast example_store @ [edited_last_row])" by blast
  from r h have r5: "save_data example_store late_day_row = Inr (example_store @ [late_day_row])"
    by blast
  have e1: "take 1 example_store @ [edited_day_row]
           @ map (\<lambda>r. r\<lparr>Total_Credit :=
                     Total_Credit r + (Total_Credit edited_day_row - Total_Credit (example_store ! 1)),
                   Total_Cash :=
                     Total_Cash r + (Total_Cash edited_day_row - Total_Cash (example_store ! 1))\<rparr>)
               (drop (Suc 1) example_store)
      = [bootstrap_row ''2024-03-09'' 100 50,
            edited_day_row,
            day_row ''2024-03-12'' 40 0 15 0 105 117,
            day_row ''2024-03-14'' 5 30 0 2 135 120]"
    by (simp add: example_store_def bootstrap_row_def day_row_def edited_day_row_def
        float64_eval)
  have e3: "butlast example_store @ [edited_last_row]
      = [bootstrap_row ''2024-03-09'' 100 50,
            day_row ''2024-03-10'' 10 20 5 3 115 62,
            day_row ''2024-03-12'' 40 0 15 0 100 117,
            edited_last_row]"
    by (simp add: example_store_def)
  show ?thesis
    using example_store_simps(2) r1 r2 r3 r4 r5 h
    unfolding e1 e3 by (simp add: list_all_iff)
qed

subsection \<open>Date texts and timestamps\<close>

lemma of_char_digit_char: "n < 10 \<Longrightarrow> of_char (digit_char n) = 48 + n"
  by (simp add: digit_char_def)

lemma digit_val_digit_char [simp]: "n < 10 \<Longrightarrow> digit_val (digit_char n) = n"
  by (simp add: digit_val_def of_char_digit_char)

lemma is_digit_digit_char [simp]: "n < 10 \<Longrightarrow> is_digit (digit_char n)"
  by (simp add: is_digit_def less_eq_char_def of_char_digit_char)

lemma digit_char_neq_hyphen [simp]: "n < 10 \<Longrightarrow> digit_char n \<noteq> CHR ''-''"
proof
  assume n: "n < 10" and e: "digit_char n = CHR ''-''"
  then have "(of_char (digit_char n) :: nat) = of_char CHR ''-''" by simp
  with n show False by (simp add: of_char_digit_char)
qed

lemma digit_char_less [simp]:
  "a < 10 \<Longrightarrow> b < 10 \<Longrightarrow> digit_char a < digit_char b \<longleftrightarrow> a < b"
  by (simp add: less_char_def of_char_digit_char)

lemma digit_char_eq [simp]:
  "a < 10 \<Longrightarrow> b < 10 \<Longrightarrow> digit_char a = digit_char b \<longleftrightarrow> a = b"
proof
  assume ab: "a < 10" "b < 10" and "digit_char a = digit_char b"
  then have "(of_char (digit_char a) :: nat) = of_char (digit_char b)" by simp
  with ab show "a = b" by (simp add: of_char_digit_char)
qed simp

lemma dec4:
  fixes y :: nat
  assumes "y \<le> 9999"
  shows "1000 * (y div 1000 mod 10) + 100 * (y div 100 mod 10) + 10 * (y div 10 mod 10)
           + y mod 10 = y"
proof -
  have 1: "y = 10 * (y div 10) + y mod 10" by simp
  have 2: "y div 10 = 10 * (y div 10 div 10) + y div 10 mod 10" by simp
  have 3: "y div 10 div 10 = 10 * (y div 10 div 10 div 10) + y div 10 div 10 mod 10" by simp
  have d: "y div 100 = y div 10 div 10" "y div 1000 = y div 10 div 10 div 10"
    by (simp_all add: div_mult2_eq[symmetric])
  have "y div 1000 mod 10 = y div 1000" using assms by simp
  then show ?thesis unfolding d using 1 2 3 by linarith
qed

lemma dec2:
  fixes m :: nat
  assumes "m \<le> 99"
  shows "10 * (m div 10 mod 10) + m mod 10 = m"
proof -
  have "m div 10 mod 10 = m div 10" using assms by simp
  then show ?thesis by simp
qed

lemma number_pad4: "y \<le> 9999 \<Longrightarrow> number (pad4 y) = y"
  using dec4[of y] by (simp add: number_def pad4_def)

lemma number_pad2: "m \<le> 99 \<Longrightarrow> number (pad2 m) = m"
  using dec2[of m] by (simp add: number_def pad2_def)

lemma days_in_month_le: "days_in_month y m \<le> 31"
  by (simp add: days_in_month_def)

lemma toString_valid:
  "valid_date (y, m, d) \<Longrightarrow> toString (y, m, d) = pad4 y @ ''-'' @ pad2 m @ ''-'' @ pad2 d"
  by (simp add: toString_def)

lemma Timestamp_toString:
  assumes "valid_date q"
  shows "Timestamp (toString q) = Inr q"
proof -
  obtain y m d where q: "q = (y, m, d)" by (cases q)
  from assms q have b: "y \<le> 9999" "m \<le> 99" "d \<le> 99"
    using days_in_month_le[of y m] by (auto simp: valid_date_def)
  have s: "toString q = pad4 y @ ''-'' @ pad2 m @ ''-'' @ pad2 d"
    using assms q by (simp add: toString_valid)
  have t: "take 4 (toString q) = pad4 y" "take 2 (drop 5 (toString q)) = pad2 m"
    "drop 8 (toString q) = pad2 d" "length (toString q) = 10"
    "toString q ! 4 = CHR ''-''" "toString q ! 7 = CHR ''-''"
    unfolding s by (simp_all add: pad4_def pad2_def)
  have dg: "list_all is_digit (pad4 y)" "list_all is_digit (pad2 m)" "list_all is_digit (pad2 d)"
    by (simp_all add: pad4_def pad2_def)
  show ?thesis
    using assms b unfolding Timestamp_def t
    by (simp add: dg number_pad4 number_pad2 q)
qed

lemma date_text_toString: "valid_date q \<Longrightarrow> date_text (toString q)"
  by (simp add: date_text_def Timestamp_toString)

lemma date_textD:
  assumes "date_text s"
  obtains q where "valid_date q" "s = toString q" "Timestamp s = Inr q"
proof -
  from assms obtain q where q: "Timestamp s = Inr q" "toString q = s"
    by (auto simp: date_text_def split: sum.splits)
  from q(1) have "valid_date q"
    by (auto simp: Timestamp_def Let_def split: if_splits)
  with q that show ?thesis by blast
qed

lemma length_toString: "valid_date q \<Longrightarrow> length (toString q) = 10"
  by (cases q) (simp add: toString_def pad4_def pad2_def)

lemma length_date_text: "date_text s \<Longrightarrow> length s = 10"
  by (erule date_textD) (simp add: length_toString)


lemma lex4:
  fixes a b c d a' b' c' d' :: nat
  assumes "a < 10" "b < 10" "c < 10" "d < 10" "a' < 10" "b' < 10" "c' < 10" "d' < 10"
  shows "(a < a' \<or> a = a' \<and> (b < b' \<or> b = b' \<and> (c < c' \<or> c = c' \<and> d < d')))
     \<longleftrightarrow> 1000 * a + 100 * b + 10 * c + d < 1000 * a' + 100 * b' + 10 * c' + d'"
  using assms by linarith

lemma lex2:
  fixes a b a' b' :: nat
  assumes "a < 10" "b < 10" "a' < 10" "b' < 10"
  shows "(a < a' \<or> a = a' \<and> b < b') \<longleftrightarrow> 10 * a + b < 10 * a' + b'"
  using assms by linarith

lemma pad4_less:
  assumes "y \<le> 9999" "y' \<le> 9999"
  shows "pad4 y < pad4 y' \<longleftrightarrow> y < y'"
proof -
  have "pad4 y < pad4 y' \<longleftrightarrow>
     1000 * (y div 1000 mod 10) + 100 * (y div 100 mod 10) + 10 * (y div 10 mod 10) + y mod 10
     < 1000 * (y' div 1000 mod 10) + 100 * (y' div 100 mod 10) + 10 * (y' div 10 mod 10)
       + y' mod 10"
    by (simp only: lex4[symmetric, of "y div 1000 mod 10" "y div 100 mod 10" "y div 10 mod 10"
          "y mod 10" "y' div 1000 mod 10" "y' div 100 mod 10" "y' div 10 mod 10" "y' mod 10",
          simplified]) (simp add: pad4_def)
  then show ?thesis by (simp only: dec4[OF assms(1)] dec4[OF assms(2)])
qed

lemma pad2_less:
  assumes "m \<le> 99" "m' \<le> 99"
  shows "pad2 m < pad2 m' \<longleftrightarrow> m < m'"
proof -
  have "pad2 m < pad2 m' \<longleftrightarrow>
     10 * (m div 10 mod 10) + m mod 10 < 10 * (m' div 10 mod 10) + m' mod 10"
    by (simp only: lex2[symmetric, of "m div 10 mod 10" "m mod 10" "m' div 10 mod 10"
          "m' mod 10", simplified]) (simp add: pad2_def)
  then show ?thesis by (simp only: dec2[OF assms(1)] dec2[OF assms(2)])
qed

lemma pad4_eq: "y \<le> 9999 \<Longrightarrow> y' \<le> 9999 \<Longrightarrow> pad4 y = pad4 y' \<longleftrightarrow> y = y'"
  using number_pad4 by metis

lemma pad2_eq: "m \<le> 99 \<Longrightarrow> m' \<le> 99 \<Longrightarrow> pad2 m = pad2 m' \<longleftrightarrow> m = m'"
  using number_pad2 by metis

lemma append_less_same_length:
  fixes xs :: "'a::linorder list"
  shows "length xs = length xs' \<Longrightarrow>
     xs @ ys < xs' @ ys' \<longleftrightarrow> xs < xs' \<or> (xs = xs' \<and> ys < ys')"
  by (induction xs xs' rule: list_induct2) auto

lemma length_pad [simp]: "length (pad4 y) = 4" "length (pad2 m) = 2"
  by (simp_all add: pad4_def pad2_def)

lemma toString_less:
  assumes "valid_date p" "valid_date q"
  shows "toString p < toString q \<longleftrightarrow> p < q"
proof -
  obtain y m d where p: "p = (y, m, d)" by (cases p)
  obtain y' m' d' where q: "q = (y', m', d')" by (cases q)
  from assms p q have b: "y \<le> 9999" "m \<le> 99" "d \<le> 99" "y' \<le> 9999" "m' \<le> 99" "d' \<le> 99"
    using days_in_month_le[of y m] days_in_month_le[of y' m'] by (auto simp: valid_date_def)
  have "toString p < toString q \<longleftrightarrow>
      pad4 y < pad4 y' \<or> (pad4 y = pad4 y' \<and>
        (pad2 m < pad2 m' \<or> (pad2 m = pad2 m' \<and> pad2 d < pad2 d')))"
    using assms unfolding p q
    by (simp add: toString_valid append_less_same_length)
  also have "\<dots> \<longleftrightarrow> y < y' \<or> (y = y' \<and> (m < m' \<or> (m = m' \<and> d < d')))"
    using b by (simp add: pad4_less pad2_less pad4_eq pad2_eq)
  also have "\<dots> \<longleftrightarrow> p < q"
    unfolding p q by (auto simp: less_prod_def)
  finally show ?thesis .
qed

lemma toString_inj: "valid_date p \<Longrightarrow> valid_date q \<Longrightarrow> toString p = toString q \<Longrightarrow> p = q"
  using Timestamp_toString by (metis sum.inject(2))

end
